theory Spec2Isabelle
  imports Complex_Main
begin

section \<open>Values, errors and the external collaborators\<close>

text \<open>
  A Python \<open>str\<close> is a sequence of Unicode code points; the keys and labels of
  \<open>app.py\<close> are Korean, so a string is modelled as the list of its code points.
  \<open>ustr\<close> embeds an ASCII literal.
\<close>

type_synonym ustring = "int list"

definition ustr :: "string \<Rightarrow> ustring" where
  "ustr s = map of_char s"

text \<open>The dictionary keys and sentiment labels used by \<open>app.py\<close>, code point by code point.\<close>

definition key_reviews :: ustring where
  "key_reviews = [0xB9AC, 0xBDF0]"

definition key_sentiment :: ustring where
  "key_sentiment = [0xAC10, 0xC815]"

definition key_text :: ustring where
  "key_text = [0xB9AC, 0xBDF0, 0xB0B4, 0xC6A9]"

definition label_positive :: ustring where
  "label_positive = [0xAE0D, 0xC815]"

definition label_negative :: ustring where
  "label_negative = [0xBD80, 0xC815]"

definition key_title :: ustring where
  "key_title = [0xC601, 0xD654, 0xBA85]"

definition key_poster :: ustring where
  "key_poster = [0xD3EC, 0xC2A4, 0xD130]"

definition key_running_time :: ustring where
  "key_running_time = [0xC0C1, 0xC601, 0xC2DC, 0xAC04]"

definition key_release :: ustring where
  "key_release = [0xAC1C, 0xBD09, 0xB144, 0xB3C4]"

definition key_synopsis :: ustring where
  "key_synopsis = [0xC904, 0xAC70, 0xB9AC]"

definition key_genre :: ustring where
  "key_genre = [0xC7A5, 0xB974]"

definition key_rating :: ustring where
  "key_rating = [0xD3C9, 0xC810]"

definition key_audience :: ustring where
  "key_audience = [0xAD00, 0xAC1D, 0xC218]"

definition default_none :: ustring where
  "default_none = [0xC5C6, 0xC74C]"

text \<open>
  What \<open>json.load\<close> returns. A dict is the list of its items, read with \<open>map_of\<close>;
  a float is modelled by the real number it denotes.
\<close>

datatype json =
    JNull
  | JBool bool
  | JInt int
  | JFloat real
  | JStr ustring
  | JArr "json list"
  | JObj "(ustring \<times> json) list"

text \<open>Every way a run of \<open>app.py\<close> can raise.\<close>

datatype error =
    KeyError ustring
  | TypeError
  | FileError
  | AnalysisError
  | DBError
  | HTTPException nat string

definition bindE :: "error + 'a \<Rightarrow> ('a \<Rightarrow> error + 'b) \<Rightarrow> error + 'b" where
  "bindE r f = (case r of Inl e \<Rightarrow> Inl e | Inr x \<Rightarrow> f x)"

text \<open>
  The parts of the run that live outside \<open>app.py\<close>: the morphological analyser
  \<open>Okt().pos(text, stem=True)\<close> (\<open>None\<close> when it raises), the Unicode classes \<open>\w\<close> and
  \<open>\s\<close> of \<open>re\<close>, and the rounding of a real quotient to a Python float.
\<close>

record env =
  okt_pos :: "ustring \<Rightarrow> (ustring \<times> ustring) list option"
  word_char :: "int \<Rightarrow> bool"
  space_char :: "int \<Rightarrow> bool"
  fround :: "real \<Rightarrow> real"

text \<open>\<open>d[k]\<close>: a missing key raises \<open>KeyError\<close>, a string subscript on anything but a dict \<open>TypeError\<close>.\<close>

fun getitem :: "json \<Rightarrow> ustring \<Rightarrow> error + json" where
  "getitem (JObj kvs) k = (case map_of kvs k of None \<Rightarrow> Inl (KeyError k) | Some v \<Rightarrow> Inr v)"
| "getitem _ k = Inl TypeError"

text \<open>\<open>for x in v\<close>: a list yields its elements, a dict its keys, a string its characters.\<close>

fun py_iter :: "json \<Rightarrow> error + json list" where
  "py_iter (JArr xs) = Inr xs"
| "py_iter (JObj kvs) = Inr (map (\<lambda>kv. JStr (fst kv)) kvs)"
| "py_iter (JStr s) = Inr (map (\<lambda>c. JStr [c]) s)"
| "py_iter _ = Inl TypeError"

section \<open>Text summarizer: \<open>preprocess_text\<close> and \<open>get_top_words\<close>\<close>

definition re_sub :: "env \<Rightarrow> ustring \<Rightarrow> ustring" where
  "re_sub env text = filter (\<lambda>c. word_char env c \<or> space_char env c) text"

definition kept_tags :: "ustring list" where
  "kept_tags = [ustr ''Noun'', ustr ''Adjective'', ustr ''Verb'']"

definition preprocess_text :: "env \<Rightarrow> json \<Rightarrow> error + ustring list" where
  "preprocess_text env text =
     (case text of
        JStr s \<Rightarrow>
          (case okt_pos env (re_sub env s) of
             None \<Rightarrow> Inl AnalysisError
           | Some tokens \<Rightarrow> Inr (map fst (filter (\<lambda>wp. snd wp \<in> set kept_tags) tokens)))
      | _ \<Rightarrow> Inl TypeError)"

text \<open>The loop of \<open>get_top_words\<close> that fills \<open>all_words\<close>; the first raise ends it.\<close>

fun all_words :: "env \<Rightarrow> json list \<Rightarrow> error + ustring list" where
  "all_words env [] = Inr []"
| "all_words env (review # rest) =
     bindE (getitem review key_text) (\<lambda>text.
     bindE (preprocess_text env text) (\<lambda>ws.
     bindE (all_words env rest) (\<lambda>more. Inr (ws @ more))))"

text \<open>
  \<open>collections.Counter\<close> is a dict, which keeps its keys in insertion order: counting a
  word already present updates its count in place, a new word goes to the end.
\<close>

fun count_elem :: "'a \<Rightarrow> ('a \<times> nat) list \<Rightarrow> ('a \<times> nat) list" where
  "count_elem w [] = [(w, 1)]"
| "count_elem w (kc # rest) =
     (if fst kc = w then (fst kc, snd kc + 1) # rest else kc # count_elem w rest)"

definition Counter :: "'a list \<Rightarrow> ('a \<times> nat) list" where
  "Counter ws = fold count_elem ws []"

text \<open>
  \<open>most_common(n)\<close> is \<open>heapq.nlargest(n, items, key=count)\<close>, which equals
  \<open>sorted(items, key=count, reverse=True)[:n]\<close>: a stable sort by descending count,
  cut after \<open>n\<close> items (none for \<open>n \<le> 0\<close>).
\<close>

definition most_common :: "int \<Rightarrow> ('a \<times> nat) list \<Rightarrow> ('a \<times> nat) list" where
  "most_common n c = take (nat n) (sort_key (\<lambda>kc. - int (snd kc)) c)"

fun join :: "ustring \<Rightarrow> ustring list \<Rightarrow> ustring" where
  "join sep [] = []"
| "join sep [w] = w"
| "join sep (w # ws) = w @ sep @ join sep ws"

definition top_words :: "int \<Rightarrow> ustring list \<Rightarrow> ustring list" where
  "top_words n ws = map fst (most_common n (Counter ws))"

definition get_top_words :: "env \<Rightarrow> json list \<Rightarrow> int \<Rightarrow> error + ustring" where
  "get_top_words env reviews n =
     bindE (all_words env reviews) (\<lambda>ws. Inr (join (ustr '', '') (top_words n ws)))"

section \<open>Aggregator: \<open>process_movie_data\<close>\<close>

text \<open>The list comprehension \<open>[review for review in ... if review[sentiment] == label]\<close>.\<close>

fun select_reviews :: "ustring \<Rightarrow> json list \<Rightarrow> error + json list" where
  "select_reviews label [] = Inr []"
| "select_reviews label (review # rest) =
     bindE (getitem review key_sentiment) (\<lambda>v.
     bindE (select_reviews label rest) (\<lambda>keep.
       Inr (if v = JStr label then review # keep else keep)))"

record summary =
  positive_summary :: ustring
  negative_summary :: ustring
  positive_ratio :: real
  negative_ratio :: real

text \<open>\<open>a / b\<close> on two ints: the real quotient, rounded to a float.\<close>

definition truediv :: "env \<Rightarrow> int \<Rightarrow> int \<Rightarrow> real" where
  "truediv env a b = fround env (real_of_int a / real_of_int b)"

definition reviews_of :: "ustring \<Rightarrow> json \<Rightarrow> error + json list" where
  "reviews_of label movie_data =
     bindE (getitem movie_data key_reviews) (\<lambda>rv.
     bindE (py_iter rv) (\<lambda>rs. select_reviews label rs))"

definition process_movie_data :: "env \<Rightarrow> json \<Rightarrow> error + summary" where
  "process_movie_data env movie_data =
     bindE (reviews_of label_positive movie_data) (\<lambda>positive_reviews.
     bindE (reviews_of label_negative movie_data) (\<lambda>negative_reviews.
     bindE (get_top_words env positive_reviews 10) (\<lambda>pos_summary.
     bindE (get_top_words env negative_reviews 10) (\<lambda>neg_summary.
       let total_reviews = int (length positive_reviews) + int (length negative_reviews)
       in Inr \<lparr>positive_summary = pos_summary,
               negative_summary = neg_summary,
               positive_ratio =
                 (if total_reviews > 0
                  then truediv env (int (length positive_reviews)) total_reviews else 0),
               negative_ratio =
                 (if total_reviews > 0
                  then truediv env (int (length negative_reviews)) total_reviews else 0)\<rparr>))))"


section \<open>The catalog store and the import: \<open>create_tables\<close>, \<open>load_and_process_data\<close>\<close>

text \<open>
  The rows of the two tables. A column holds the value that was bound to it (SQLite is
  dynamically typed; the conversion of a stored value under the column's affinity is not
  modelled). The summary columns are always written from the aggregator's results.
\<close>

record movie_row =
  m_id :: int
  m_title :: json
  m_poster_url :: json
  m_age_limit :: json
  m_running_time :: json
  m_release_date :: json
  m_synopsis :: json
  m_recommended_movies :: json
  m_genre :: json
  m_rating :: json
  m_audience :: json

record review_row =
  r_id :: int
  r_classification :: ustring
  r_ratio :: real
  r_summary :: ustring
  r_movie_id :: int

text \<open>
  The state outside the process: the two tables of \<open>movie_database.db\<close> (\<open>None\<close> while a
  table does not exist), the number of sessions opened and not yet closed, and what was
  printed.
\<close>

record store =
  movies_tbl :: "movie_row list option"
  reviews_tbl :: "review_row list option"
  open_sessions :: nat
  stdout :: "string list"

definition rows_of :: "'a list option \<Rightarrow> 'a list" where
  "rows_of t = (case t of None \<Rightarrow> [] | Some rows \<Rightarrow> rows)"

text \<open>\<open>Base.metadata.create_all\<close> creates each table that does not exist yet.\<close>

definition create_all :: "store \<Rightarrow> store" where
  "create_all st = st\<lparr>movies_tbl := Some (rows_of (movies_tbl st)),
                        reviews_tbl := Some (rows_of (reviews_tbl st))\<rparr>"

definition create_tables :: "store \<Rightarrow> store" where
  "create_tables st =
     (if movies_tbl st = None
      then (create_all st)\<lparr>stdout := stdout st @ [''Tables created.'']\<rparr>
      else st\<lparr>stdout := stdout st @ [''Tables already exist. Skipping creation.'']\<rparr>)"

text \<open>
  An open session: the tables as its transaction sees them, and the \<open>Review\<close> objects
  added but not yet flushed (their \<open>r_id\<close> is assigned by the flush).
\<close>

record session =
  s_movies :: "movie_row list option"
  s_reviews :: "review_row list option"
  s_pending :: "review_row list"

text \<open>SQLite gives a new row the largest id of the table plus one, or 1 in an empty table.\<close>

definition next_id :: "int list \<Rightarrow> int" where
  "next_id ids = (if ids = [] then 1 else Max (set ids) + 1)"

text \<open>The driver binds \<open>None\<close>, 64-bit ints, floats and strings; a list or dict raises.\<close>

definition bindable :: "json \<Rightarrow> bool" where
  "bindable v =
     (case v of
        JArr _ \<Rightarrow> False
      | JObj _ \<Rightarrow> False
      | JInt i \<Rightarrow> - (2 ^ 63) \<le> i \<and> i < 2 ^ 63
      | _ \<Rightarrow> True)"

fun insert_reviews :: "review_row list \<Rightarrow> review_row list \<Rightarrow> review_row list" where
  "insert_reviews rows [] = rows"
| "insert_reviews rows (r # pending) =
     insert_reviews (rows @ [r\<lparr>r_id := next_id (map r_id rows)\<rparr>]) pending"

definition flush_reviews :: "session \<Rightarrow> error + session" where
  "flush_reviews ss =
     (if s_pending ss = [] then Inr ss
      else case s_reviews ss of
             None \<Rightarrow> Inl DBError
           | Some rows \<Rightarrow>
               Inr (ss\<lparr>s_reviews := Some (insert_reviews rows (s_pending ss)), s_pending := []\<rparr>))"

text \<open>
  \<open>db.add(movie); db.flush()\<close>: the movie row is inserted and gets its id, then the
  reviews still pending from the previous movie. The result is the new id and the session.
\<close>

definition flush_movie :: "session \<Rightarrow> movie_row \<Rightarrow> error + int \<times> session" where
  "flush_movie ss movie =
     (case s_movies ss of
        None \<Rightarrow> Inl DBError
      | Some rows \<Rightarrow>
          if \<not> list_all bindable
                 [m_title movie, m_poster_url movie, m_running_time movie, m_release_date movie,
                  m_synopsis movie, m_genre movie, m_rating movie, m_audience movie]
          then Inl DBError
          else let new_id = next_id (map m_id rows)
               in bindE (flush_reviews (ss\<lparr>s_movies := Some (rows @ [movie\<lparr>m_id := new_id\<rparr>])\<rparr>))
                    (\<lambda>ss'. Inr (new_id, ss')))"

text \<open>The body of the loop of \<open>load_and_process_data\<close>, for one movie.\<close>

definition import_movie :: "env \<Rightarrow> json \<Rightarrow> session \<Rightarrow> error + session" where
  "import_movie env movie_data ss =
     bindE (process_movie_data env movie_data) (\<lambda>processed_data.
     bindE (getitem movie_data key_title) (\<lambda>title.
     bindE (getitem movie_data key_poster) (\<lambda>poster_url.
     bindE (getitem movie_data key_running_time) (\<lambda>running_time.
     bindE (getitem movie_data key_release) (\<lambda>release_date.
     bindE (getitem movie_data key_synopsis) (\<lambda>synopsis.
     bindE (getitem movie_data key_genre) (\<lambda>genre.
     bindE (getitem movie_data key_rating) (\<lambda>rating.
     bindE (getitem movie_data key_audience) (\<lambda>audience.
     bindE (flush_movie ss
              \<lparr>m_id = 0, m_title = title, m_poster_url = poster_url,
               m_age_limit = JStr default_none, m_running_time = running_time,
               m_release_date = release_date, m_synopsis = synopsis,
               m_recommended_movies = JStr default_none, m_genre = genre,
               m_rating = rating, m_audience = audience\<rparr>) (\<lambda>flushed.
       let positive_review =
             \<lparr>r_id = 0, r_classification = label_positive,
              r_ratio = positive_ratio processed_data,
              r_summary = positive_summary processed_data, r_movie_id = fst flushed\<rparr>;
           negative_review =
             \<lparr>r_id = 0, r_classification = label_negative,
              r_ratio = negative_ratio processed_data,
              r_summary = negative_summary processed_data, r_movie_id = fst flushed\<rparr>
       in Inr ((snd flushed)\<lparr>s_pending :=
                 s_pending (snd flushed) @ [positive_review, negative_review]\<rparr>)))))))))))"

fun import_movies :: "env \<Rightarrow> json list \<Rightarrow> session \<Rightarrow> error + session" where
  "import_movies env [] ss = Inr ss"
| "import_movies env (movie_data # rest) ss =
     bindE (import_movie env movie_data ss) (\<lambda>ss'. import_movies env rest ss')"

text \<open>
  \<open>file\<close> is what \<open>json.load\<close> reads from \<open>data.json\<close> (\<open>None\<close> when the file cannot
  be opened or parsed). The session is opened after the file is read; \<open>db.commit()\<close> flushes
  and makes the session's tables the store's, \<open>db.close()\<close> follows. An exception leaves
  the transaction uncommitted and the session open.
\<close>

definition load_and_process_data :: "env \<Rightarrow> json option \<Rightarrow> store \<Rightarrow> store \<times> (error + unit)" where
  "load_and_process_data env file st =
     (case file of
        None \<Rightarrow> (st, Inl FileError)
      | Some data \<Rightarrow>
          let st1 = st\<lparr>open_sessions := open_sessions st + 1\<rparr>;
              db = \<lparr>s_movies = movies_tbl st, s_reviews = reviews_tbl st, s_pending = []\<rparr>
          in case bindE (py_iter data) (\<lambda>movies.
                  bindE (import_movies env movies db) flush_reviews) of
               Inl e \<Rightarrow> (st1, Inl e)
             | Inr db' \<Rightarrow>
                 (st1\<lparr>movies_tbl := s_movies db', reviews_tbl := s_reviews db',
                       open_sessions := open_sessions st1 - 1\<rparr>, Inr ()))"

text \<open>The \<open>__main__\<close> block up to the start of the server.\<close>

definition main_block :: "env \<Rightarrow> json option \<Rightarrow> store \<Rightarrow> store \<times> (error + unit)" where
  "main_block env file st = load_and_process_data env file (create_tables st)"

section \<open>The query handler \<open>get_movie\<close>\<close>

definition movie_json :: "movie_row \<Rightarrow> json" where
  "movie_json movie =
     JObj [(ustr ''id'', JInt (m_id movie)),
           (ustr ''title'', m_title movie),
           (ustr ''poster_url'', m_poster_url movie),
           (ustr ''age_limit'', m_age_limit movie),
           (ustr ''running_time'', m_running_time movie),
           (ustr ''release_date'', m_release_date movie),
           (ustr ''synopsis'', m_synopsis movie),
           (ustr ''recommended_movies'', m_recommended_movies movie)]"

definition review_json :: "review_row \<Rightarrow> json" where
  "review_json review =
     JObj [(ustr ''classification'', JStr (r_classification review)),
           (ustr ''ratio'', JFloat (r_ratio review)),
           (ustr ''summary'', JStr (r_summary review))]"

text \<open>
  The result is the store afterwards and either the raised exception or the returned dict.
  A query on a table that does not exist raises.
\<close>

definition get_movie :: "int \<Rightarrow> store \<Rightarrow> store \<times> (error + json)" where
  "get_movie movie_id st =
     (let st1 = st\<lparr>open_sessions := open_sessions st + 1\<rparr>
      in case movies_tbl st1 of
           None \<Rightarrow> (st1, Inl DBError)
         | Some movies \<Rightarrow>
             (case find (\<lambda>m. m_id m = movie_id) movies of
                None \<Rightarrow> (st1, Inl (HTTPException 404 ''Movie not found''))
              | Some movie \<Rightarrow>
                  (case reviews_tbl st1 of
                     None \<Rightarrow> (st1, Inl DBError)
                   | Some rows \<Rightarrow>
                       let reviews = filter (\<lambda>r. r_movie_id r = movie_id) rows;
                           st2 = st1\<lparr>open_sessions := open_sessions st1 - 1\<rparr>
                       in (st2, Inr (JObj [(ustr ''movie'', movie_json movie),
                                           (ustr ''reviews'', JArr (map review_json reviews))])))))"

section \<open>A small environment and inputs for the examples\<close>

text \<open>
  A stand-in analyser: it splits the text at spaces, tags a word that starts with a digit
  \<open>Number\<close> and any other word \<open>Noun\<close>, and raises on a text that contains the letter
  \<open>Z\<close>. Word characters are ASCII letters, digits, the underscore and Hangul syllables;
  rounding is the identity.
\<close>

fun words_of :: "ustring \<Rightarrow> ustring \<Rightarrow> ustring list" where
  "words_of cur [] = (if cur = [] then [] else [cur])"
| "words_of cur (c # cs) =
     (if c = 32 then (if cur = [] then words_of [] cs else cur # words_of [] cs)
      else words_of (cur @ [c]) cs)"

definition sample_tag :: "ustring \<Rightarrow> ustring" where
  "sample_tag w =
     (case w of
        [] \<Rightarrow> ustr ''Noun''
      | c # _ \<Rightarrow> if 48 \<le> c \<and> c \<le> 57 then ustr ''Number'' else ustr ''Noun'')"

definition sample_env :: env where
  "sample_env =
     \<lparr>okt_pos = (\<lambda>t. if 90 \<in> set t then None
                      else Some (map (\<lambda>w. (w, sample_tag w)) (words_of [] t))),
      word_char = (\<lambda>c. (48 \<le> c \<and> c \<le> 57) \<or> (65 \<le> c \<and> c \<le> 90) \<or> c = 95
                        \<or> (97 \<le> c \<and> c \<le> 122) \<or> (0xAC00 \<le> c \<and> c \<le> 0xD7A3)),
      space_char = (\<lambda>c. c = 32 \<or> (9 \<le> c \<and> c \<le> 13)),
      fround = (\<lambda>x. x)\<rparr>"

definition review :: "ustring \<Rightarrow> string \<Rightarrow> json" where
  "review label text = JObj [(key_text, JStr (ustr text)), (key_sentiment, JStr label)]"

definition movie :: "string \<Rightarrow> json list \<Rightarrow> json" where
  "movie title reviews =
     JObj [(key_title, JStr (ustr title)), (key_poster, JStr (ustr ''p.jpg'')),
           (key_running_time, JStr (ustr ''120'')), (key_release, JStr (ustr ''2020'')),
           (key_synopsis, JStr (ustr ''plot'')), (key_genre, JStr (ustr ''drama'')),
           (key_rating, JStr (ustr ''8.5'')), (key_audience, JInt 1000),
           (key_reviews, JArr reviews)]"

definition empty_store :: store where
  "empty_store = \<lparr>movies_tbl = None, reviews_tbl = None, open_sessions = 0, stdout = []\<rparr>"

text \<open>
  A data file with one movie, the store a first start-up fills from it, and two data files
  whose second movie holds a faulty review: one without its text field, one whose text the
  stand-in analyser rejects.
\<close>

definition sample_data :: json where
  "sample_data = JArr [movie ''A'' [review label_positive ''good fun good'', review label_negative ''bad'']]"

definition populated_store :: store where
  "populated_store =
     \<lparr>movies_tbl = Some
        [\<lparr>m_id = 1, m_title = JStr (ustr ''A''), m_poster_url = JStr (ustr ''p.jpg''),
          m_age_limit = JStr default_none, m_running_time = JStr (ustr ''120''),
          m_release_date = JStr (ustr ''2020''), m_synopsis = JStr (ustr ''plot''),
          m_recommended_movies = JStr default_none, m_genre = JStr (ustr ''drama''),
          m_rating = JStr (ustr ''8.5''), m_audience = JInt 1000\<rparr>],
      reviews_tbl = Some
        [\<lparr>r_id = 1, r_classification = label_positive, r_ratio = 1 / 2,
          r_summary = ustr ''good, fun'', r_movie_id = 1\<rparr>,
         \<lparr>r_id = 2, r_classification = label_negative, r_ratio = 1 / 2,
          r_summary = ustr ''bad'', r_movie_id = 1\<rparr>],
      open_sessions = 0, stdout = [''Tables created.'']\<rparr>"


definition garbled_data :: json where
  "garbled_data =
     JArr [movie ''A'' [review label_positive ''good''],
           movie ''B'' [review label_positive ''nice'', review label_negative ''Zap'']]"

section \<open>Properties stated over the model\<close>


text \<open>
  What is assumed of the rounding of a real number to a double: zero is kept, and in the
  range of the normal doubles the relative error is at most \<open>2\<^sup>-\<^sup>5\<^sup>3\<close>, as
  round-to-nearest gives.
\<close>

definition float_rounding :: "env \<Rightarrow> bool" where
  "float_rounding env \<longleftrightarrow>
     (\<forall>x. x = 0 \<or> (1 / 2 ^ 1022 \<le> \<bar>x\<bar> \<and> \<bar>x\<bar> \<le> 2 ^ 1023)
          \<longrightarrow> \<bar>fround env x - x\<bar> \<le> \<bar>x\<bar> / 2 ^ 53)"

text \<open>A review whose sentiment label is one of the two that \<open>process_movie_data\<close> selects.\<close>

definition labelled :: "json \<Rightarrow> bool" where
  "labelled r \<longleftrightarrow> getitem r key_sentiment = Inr (JStr label_positive)
                 \<or> getitem r key_sentiment = Inr (JStr label_negative)"


text \<open>
  The position of the first occurrence of a word in a token stream, and the order the
  summary is claimed to follow: more frequent first, among equally frequent words the one
  that occurs first.
\<close>

definition first_index :: "'a list \<Rightarrow> 'a \<Rightarrow> nat" where
  "first_index ws w = length (takeWhile (\<lambda>x. x \<noteq> w) ws)"

definition ranks_before :: "'a list \<Rightarrow> 'a \<Rightarrow> 'a \<Rightarrow> bool" where
  "ranks_before ws a b \<longleftrightarrow>
     count_list ws a > count_list ws b
     \<or> (count_list ws a = count_list ws b \<and> first_index ws a < first_index ws b)"

text \<open>All counted words in the order \<open>most_common\<close> sorts them, before the cut.\<close>

definition ranking :: "'a list \<Rightarrow> 'a list" where
  "ranking ws = map fst (sort_key (\<lambda>kc. - int (snd kc)) (Counter ws))"


lemmas key_defs =
  key_reviews_def key_sentiment_def key_text_def label_positive_def label_negative_def
  key_title_def key_poster_def key_running_time_def key_release_def key_synopsis_def
  key_genre_def key_rating_def key_audience_def default_none_def


section \<open>Helper lemmas\<close>

lemma bindE_simps [simp]:
  "bindE (Inl e) f = Inl e"
  "bindE (Inr x) f = f x"
  by (simp_all add: bindE_def)

lemma bindE_eq_Inr:
  "bindE r f = Inr y \<longleftrightarrow> (\<exists>x. r = Inr x \<and> f x = Inr y)"
  by (cases r) simp_all




lemma process_movie_data_Inr:
  "process_movie_data env m = Inr r \<longleftrightarrow>
     (\<exists>pos neg ps ns.
        reviews_of label_positive m = Inr pos \<and> reviews_of label_negative m = Inr neg
      \<and> get_top_words env pos 10 = Inr ps \<and> get_top_words env neg 10 = Inr ns
      \<and> r = \<lparr>positive_summary = ps, negative_summary = ns,
               positive_ratio =
                 (if int (length pos) + int (length neg) > 0
                  then truediv env (int (length pos)) (int (length pos) + int (length neg)) else 0),
               negative_ratio =
                 (if int (length pos) + int (length neg) > 0
                  then truediv env (int (length neg)) (int (length pos) + int (length neg)) else 0)\<rparr>)"
  unfolding process_movie_data_def Let_def bindE_eq_Inr
  by (rule iffI; (elim exE conjE | intro exI conjI)?; (simp only: sum.inject)?; blast)

lemma process_movie_data_InrD:
  assumes "process_movie_data env m = Inr r"
  shows "\<exists>pos neg.
        reviews_of label_positive m = Inr pos \<and> reviews_of label_negative m = Inr neg
      \<and> get_top_words env pos 10 = Inr (positive_summary r)
      \<and> get_top_words env neg 10 = Inr (negative_summary r)
      \<and> positive_ratio r =
            (if int (length pos) + int (length neg) > 0
             then truediv env (int (length pos)) (int (length pos) + int (length neg)) else 0)
      \<and> negative_ratio r =
            (if int (length pos) + int (length neg) > 0
             then truediv env (int (length neg)) (int (length pos) + int (length neg)) else 0)"
proof -
  from assms [unfolded process_movie_data_Inr] obtain pos neg ps ns where
    h: "reviews_of label_positive m = Inr pos" "reviews_of label_negative m = Inr neg"
       "get_top_words env pos 10 = Inr ps" "get_top_words env neg 10 = Inr ns"
    and r: "r = \<lparr>positive_summary = ps, negative_summary = ns,
               positive_ratio =
                 (if int (length pos) + int (length neg) > 0
                  then truediv env (int (length pos)) (int (length pos) + int (length neg)) else 0),
               negative_ratio =
                 (if int (length pos) + int (length neg) > 0
                  then truediv env (int (length neg)) (int (length pos) + int (length neg)) else 0)\<rparr>"
    by blast
  have "positive_summary r = ps" "negative_summary r = ns" by (simp_all add: r)
  moreover have "positive_ratio r =
            (if int (length pos) + int (length neg) > 0
             then truediv env (int (length pos)) (int (length pos) + int (length neg)) else 0)"
    by (simp add: r)
  moreover have "negative_ratio r =
            (if int (length pos) + int (length neg) > 0
             then truediv env (int (length neg)) (int (length pos) + int (length neg)) else 0)"
    by (simp add: r)
  ultimately show ?thesis using h by blast
qed

lemma float_rounding_zero: "float_rounding env \<Longrightarrow> fround env 0 = 0"
  unfolding float_rounding_def by (metis abs_le_zero_iff abs_zero diff_zero div_0)


lemma select_reviews_filter:
  assumes "\<forall>r\<in>set rs. \<exists>v. getitem r key_sentiment = Inr v"
    and "label = label_positive \<or> label = label_negative"
  shows "select_reviews label (filter labelled rs) = select_reviews label rs"
  using assms
proof (induction rs)
  case Nil
  then show ?case by simp
next
  case (Cons r rs)
  then obtain v where v: "getitem r key_sentiment = Inr v" by auto
  from Cons have IH: "select_reviews label (filter labelled rs) = select_reviews label rs" by simp
  show ?case
  proof (cases "labelled r")
    case True
    with v IH show ?thesis by simp
  next
    case False
    with v Cons.prems(2) have "v \<noteq> JStr label" by (auto simp: labelled_def)
    with False v IH show ?thesis by (cases "select_reviews label rs") simp_all
  qed
qed

lemma Counter_snoc: "Counter (ws @ [w]) = count_elem w (Counter ws)"
  by (simp add: Counter_def)

lemma keys_count_elem:
  "map fst (count_elem w acc) = (if w \<in> fst ` set acc then map fst acc else map fst acc @ [w])"
  by (induction acc) auto

lemma map_of_count_elem:
  "map_of (count_elem w acc) k =
     (if k = w then Some (case map_of acc w of None \<Rightarrow> 1 | Some c \<Rightarrow> c + 1)
      else map_of acc k)"
  by (induction acc) auto

lemma keys_Counter: "set (map fst (Counter ws)) = set ws"
  by (induction ws rule: rev_induct) (auto simp: Counter_def Counter_snoc keys_count_elem)

lemma distinct_Counter: "distinct (map fst (Counter ws))"
proof (induction ws rule: rev_induct)
  case Nil
  then show ?case by (simp add: Counter_def)
next
  case (snoc w ws)
  then show ?case by (auto simp: Counter_snoc keys_count_elem)
qed

lemma map_of_Counter:
  "map_of (Counter ws) k = (if k \<in> set ws then Some (count_list ws k) else None)"
proof (induction ws arbitrary: k rule: rev_induct)
  case Nil
  then show ?case by (simp add: Counter_def)
next
  case (snoc w ws)
  have "count_list ws w = 0" if "w \<notin> set ws" using that by (simp add: count_list_0_iff)
  with snoc [of k] snoc [of w] show ?case by (simp add: Counter_snoc map_of_count_elem)
qed

lemma counts_Counter: "(k, c) \<in> set (Counter ws) \<Longrightarrow> c = count_list ws k"
proof -
  assume "(k, c) \<in> set (Counter ws)"
  then have "map_of (Counter ws) k = Some c"
    using distinct_Counter [of ws] by simp
  then show ?thesis by (simp add: map_of_Counter split: if_splits)
qed

lemma first_index_snoc: "k \<in> set ws \<Longrightarrow> first_index (ws @ [w]) k = first_index ws k"
  by (simp add: first_index_def takeWhile_append1)

lemma first_index_less: "k \<in> set ws \<Longrightarrow> first_index ws k < length ws"
  unfolding first_index_def by (induction ws) auto

lemma first_index_new: "w \<notin> set ws \<Longrightarrow> first_index (ws @ [w]) w = length ws"
  unfolding first_index_def by (induction ws) auto

lemma order_Counter:
  "sorted_wrt (\<lambda>a b. first_index ws a < first_index ws b) (map fst (Counter ws))"
proof (induction ws rule: rev_induct)
  case Nil
  then show ?case by (simp add: Counter_def)
next
  case (snoc w ws)
  let ?ks = "map fst (Counter ws)"
  have keys: "set ?ks = set ws" by (rule keys_Counter)
  have old: "sorted_wrt (\<lambda>a b. first_index (ws @ [w]) a < first_index (ws @ [w]) b) ?ks"
  proof (rule sorted_wrt_mono_rel [OF _ snoc.IH])
    fix a b assume "a \<in> set ?ks" "b \<in> set ?ks" "first_index ws a < first_index ws b"
    then show "first_index (ws @ [w]) a < first_index (ws @ [w]) b"
      unfolding keys by (simp add: first_index_snoc)
  qed
  show ?case
  proof (cases "w \<in> set ws")
    case True
    with keys have "map fst (Counter (ws @ [w])) = ?ks"
      by (simp add: Counter_snoc keys_count_elem)
    with old show ?thesis by simp
  next
    case False
    with keys have ks: "map fst (Counter (ws @ [w])) = ?ks @ [w]"
      by (simp add: Counter_snoc keys_count_elem)
    have "first_index (ws @ [w]) a < first_index (ws @ [w]) w" if "a \<in> set ?ks" for a
      using that keys False first_index_less [of a ws]
      by (simp add: first_index_snoc first_index_new)
    with old show ?thesis unfolding ks by (simp add: sorted_wrt_append)
  qed
qed

lemma insort_key_stable_order:
  fixes f :: "'a \<Rightarrow> int"
  assumes "sorted_wrt (\<lambda>a b. f a < f b \<or> (f a = f b \<and> R a b)) xs"
    and "\<forall>y\<in>set xs. R x y"
  shows "sorted_wrt (\<lambda>a b. f a < f b \<or> (f a = f b \<and> R a b)) (insort_key f x xs)"
  using assms
proof (induction xs)
  case Nil
  then show ?case by simp
next
  case (Cons y ys)
  show ?case
  proof (cases "f x \<le> f y")
    case True
    have "f x < f z \<or> (f x = f z \<and> R x z)" if "z \<in> set (y # ys)" for z
    proof -
      from that Cons.prems(1) have "f y \<le> f z" by auto
      with True have "f x \<le> f z" by simp
      moreover from that Cons.prems(2) have "R x z" by blast
      ultimately show ?thesis by auto
    qed
    with True Cons.prems(1) show ?thesis by simp
  next
    case False
    from Cons have "sorted_wrt (\<lambda>a b. f a < f b \<or> (f a = f b \<and> R a b)) (insort_key f x ys)"
      by simp
    with False Cons.prems(1) show ?thesis by (auto simp: set_insort_key)
  qed
qed

lemma sort_key_stable_order:
  fixes f :: "'a \<Rightarrow> int"
  assumes "sorted_wrt R xs"
  shows "sorted_wrt (\<lambda>a b. f a < f b \<or> (f a = f b \<and> R a b)) (sort_key f xs)"
  using assms
proof (induction xs)
  case Nil
  then show ?case by simp
next
  case (Cons x xs)
  then have "sorted_wrt (\<lambda>a b. f a < f b \<or> (f a = f b \<and> R a b)) (sort_key f xs)"
    and "\<forall>y\<in>set (sort_key f xs). R x y" by simp_all
  then show ?case by (simp add: insort_key_stable_order)
qed

lemma top_words_take: "top_words n ws = take (nat n) (ranking ws)"
  by (simp add: top_words_def most_common_def ranking_def take_map)

lemma set_ranking: "set (ranking ws) = set ws"
  using keys_Counter [of ws] by (simp add: ranking_def)

lemma distinct_ranking: "distinct (ranking ws)"
  using distinct_Counter [of ws] by (simp add: ranking_def distinct_map)

lemma sorted_ranking: "sorted_wrt (ranks_before ws) (ranking ws)"
proof -
  let ?f = "\<lambda>kc :: 'a \<times> nat. - int (snd kc)"
  let ?R = "\<lambda>a b :: 'a \<times> nat. first_index ws (fst a) < first_index ws (fst b)"
  have "sorted_wrt ?R (Counter ws)"
    using order_Counter [of ws] by (simp add: sorted_wrt_map)
  then have st: "sorted_wrt (\<lambda>a b. ?f a < ?f b \<or> (?f a = ?f b \<and> ?R a b)) (sort_key ?f (Counter ws))"
    by (rule sort_key_stable_order)
  have "sorted_wrt (\<lambda>a b. ranks_before ws (fst a) (fst b)) (sort_key ?f (Counter ws))"
  proof (rule sorted_wrt_mono_rel [OF _ st])
    fix a b assume "a \<in> set (sort_key ?f (Counter ws))" "b \<in> set (sort_key ?f (Counter ws))"
      and h: "?f a < ?f b \<or> (?f a = ?f b \<and> ?R a b)"
    then have "a \<in> set (Counter ws)" "b \<in> set (Counter ws)" by simp_all
    then have "snd a = count_list ws (fst a)" "snd b = count_list ws (fst b)"
      using counts_Counter [of "fst a" "snd a" ws] counts_Counter [of "fst b" "snd b" ws]
      by simp_all
    with h show "ranks_before ws (fst a) (fst b)" by (auto simp: ranks_before_def)
  qed
  then show ?thesis by (simp add: ranking_def sorted_wrt_map)
qed

lemma top_words_props:
  "sorted_wrt (ranks_before ws) (top_words n ws)
   \<and> distinct (top_words n ws)
   \<and> set (top_words n ws) \<subseteq> set ws
   \<and> (\<forall>a\<in>set (top_words n ws). \<forall>b\<in>set ws - set (top_words n ws). ranks_before ws a b)
   \<and> length (top_words n ws) = min (nat n) (card (set ws))"
proof -
  let ?R = "ranking ws" and ?k = "nat n"
  have split: "?R = take ?k ?R @ drop ?k ?R" by simp
  have s: "sorted_wrt (ranks_before ws) (take ?k ?R @ drop ?k ?R)"
    using sorted_ranking [of ws] by simp
  have 1: "sorted_wrt (ranks_before ws) (take ?k ?R)"
    and cross: "\<forall>a\<in>set (take ?k ?R). \<forall>b\<in>set (drop ?k ?R). ranks_before ws a b"
    using s unfolding sorted_wrt_append by blast+
  have 2: "distinct (take ?k ?R)" using distinct_ranking [of ws] by simp
  have 3: "set (take ?k ?R) \<subseteq> set ws" using set_take_subset [of ?k ?R] set_ranking [of ws] by simp
  have "set ws = set (take ?k ?R) \<union> set (drop ?k ?R)"
    using set_ranking [of ws] set_append [of "take ?k ?R" "drop ?k ?R"] by simp
  then have "set ws - set (take ?k ?R) \<subseteq> set (drop ?k ?R)" by blast
  with cross have 4: "\<forall>a\<in>set (take ?k ?R). \<forall>b\<in>set ws - set (take ?k ?R). ranks_before ws a b"
    by blast
  have "length ?R = card (set ws)"
    using distinct_card [OF distinct_ranking [of ws]] set_ranking [of ws] by simp
  then have 5: "length (take ?k ?R) = min (nat n) (card (set ws))" by simp
  from 1 2 3 4 5 show ?thesis unfolding top_words_take by blast
qed

lemma import_movie_fails:
  "process_movie_data env m = Inl e \<Longrightarrow> import_movie env m ss = Inl e"
  by (simp add: import_movie_def)

lemma import_movies_fails:
  "m \<in> set movies \<Longrightarrow> process_movie_data env m = Inl e
   \<Longrightarrow> \<exists>e'. import_movies env movies ss = Inl e'"
proof (induction movies arbitrary: ss)
  case Nil
  then show ?case by simp
next
  case (Cons a movies)
  show ?case
  proof (cases "import_movie env a ss")
    case (Inl e')
    then show ?thesis by simp
  next
    case (Inr ss')
    with Cons.prems import_movie_fails [of env m e ss] have "m \<in> set movies" by auto
    with Cons.IH [of ss'] Cons.prems(2) Inr show ?thesis by simp
  qed
qed

lemma load_fails:
  assumes "py_iter data = Inr movies"
    and "import_movies env movies
           \<lparr>s_movies = movies_tbl st, s_reviews = reviews_tbl st, s_pending = []\<rparr> = Inl e"
  shows "load_and_process_data env (Some data) st =
           (st\<lparr>open_sessions := open_sessions st + 1\<rparr>, Inl e)"
  using assms by (simp add: load_and_process_data_def Let_def)

lemma all_words_fails:
  "r \<in> set rs \<Longrightarrow> bindE (getitem r key_text) (preprocess_text env) = Inl e
   \<Longrightarrow> \<exists>e'. all_words env rs = Inl e'"
proof (induction rs)
  case Nil
  then show ?case by simp
next
  case (Cons a rs)
  show ?case
  proof (cases "bindE (getitem a key_text) (preprocess_text env)")
    case (Inl e')
    then show ?thesis by (cases "getitem a key_text") simp_all
  next
    case (Inr ws)
    with Cons.prems have "r \<in> set rs" by auto
    with Cons.IH Cons.prems(2) obtain e' where "all_words env rs = Inl e'" by blast
    with Inr show ?thesis by (cases "getitem a key_text") simp_all
  qed
qed

lemma select_reviews_mem:
  "select_reviews label rs = Inr keep \<Longrightarrow> r \<in> set rs
   \<Longrightarrow> getitem r key_sentiment = Inr (JStr label) \<Longrightarrow> r \<in> set keep"
proof (induction rs arbitrary: keep)
  case Nil
  then show ?case by simp
next
  case (Cons a rs)
  from Cons.prems(1) obtain v keep' where v: "getitem a key_sentiment = Inr v"
    and k: "select_reviews label rs = Inr keep'"
    and keep: "keep = (if v = JStr label then a # keep' else keep')"
    by (auto simp: bindE_eq_Inr)
  show ?case
  proof (cases "r = a")
    case True
    with v Cons.prems(3) keep show ?thesis by simp
  next
    case False
    with Cons.prems(2) have "r \<in> set rs" by simp
    from Cons.IH [OF k this Cons.prems(3)] keep show ?thesis by simp
  qed
qed

lemma process_fails:
  assumes rv: "getitem m key_reviews = Inr rv" and rs: "py_iter rv = Inr rs"
    and r: "r \<in> set rs" and lab: "labelled r"
    and bad: "bindE (getitem r key_text) (preprocess_text env) = Inl e"
  shows "\<exists>e'. process_movie_data env m = Inl e'"
proof (cases "process_movie_data env m")
  case (Inl e')
  then show ?thesis by blast
next
  case (Inr res)
  from process_movie_data_InrD [OF Inr] obtain pos neg where
    p: "reviews_of label_positive m = Inr pos" and n: "reviews_of label_negative m = Inr neg"
    and ps: "get_top_words env pos 10 = Inr (positive_summary res)"
    and ns: "get_top_words env neg 10 = Inr (negative_summary res)" by blast
  from p rv rs have sp: "select_reviews label_positive rs = Inr pos" by (simp add: reviews_of_def)
  from n rv rs have sn: "select_reviews label_negative rs = Inr neg" by (simp add: reviews_of_def)
  from lab have "r \<in> set pos \<or> r \<in> set neg"
    unfolding labelled_def using select_reviews_mem [OF sp r] select_reviews_mem [OF sn r] by blast
  then have "(\<exists>e'. all_words env pos = Inl e') \<or> (\<exists>e'. all_words env neg = Inl e')"
    using all_words_fails [OF _ bad] by blast
  with ps ns have False by (auto simp: get_top_words_def)
  then show ?thesis ..
qed

lemma faulty_review_aborts:
  assumes "py_iter data = Inr movies" and "m \<in> set movies"
    and "getitem m key_reviews = Inr rv" and "py_iter rv = Inr rs"
    and "r \<in> set rs" and "labelled r"
    and "bindE (getitem r key_text) (preprocess_text env) = Inl e"
  shows "\<exists>e'. load_and_process_data env (Some data) st =
           (st\<lparr>open_sessions := open_sessions st + 1\<rparr>, Inl e')"
proof -
  from process_fails [OF assms(3-7)] obtain e1 where "process_movie_data env m = Inl e1" ..
  from import_movies_fails [OF assms(2) this] obtain e2 where
    "import_movies env movies
       \<lparr>s_movies = movies_tbl st, s_reviews = reviews_tbl st, s_pending = []\<rparr> = Inl e2" ..
  from load_fails [OF assms(1) this] show ?thesis ..
qed

lemma insert_reviews_append:
  "\<exists>new. insert_reviews rows p = rows @ new \<and> length new = length p"
proof (induction p arbitrary: rows)
  case Nil
  then show ?case by simp
next
  case (Cons r p)
  from Cons [of "rows @ [r\<lparr>r_id := next_id (map r_id rows)\<rparr>]"] obtain new where
    "insert_reviews (rows @ [r\<lparr>r_id := next_id (map r_id rows)\<rparr>]) p
       = (rows @ [r\<lparr>r_id := next_id (map r_id rows)\<rparr>]) @ new" and "length new = length p"
    by blast
  then have "insert_reviews rows (r # p) = rows @ (r\<lparr>r_id := next_id (map r_id rows)\<rparr> # new)
     \<and> length (r\<lparr>r_id := next_id (map r_id rows)\<rparr> # new) = length (r # p)" by simp
  then show ?case by blast
qed

lemma flush_reviews_Inr:
  assumes "flush_reviews ss = Inr ss'"
  shows "s_movies ss' = s_movies ss \<and> s_pending ss' = []
       \<and> (\<exists>new. rows_of (s_reviews ss') = rows_of (s_reviews ss) @ new
              \<and> length new = length (s_pending ss))
       \<and> (s_reviews ss \<noteq> None \<longrightarrow> s_reviews ss' \<noteq> None)"
proof (cases "s_pending ss = []")
  case True
  with assms show ?thesis by (simp add: flush_reviews_def)
next
  case False
  with assms obtain rows where rows: "s_reviews ss = Some rows"
    and ss': "ss' = ss\<lparr>s_reviews := Some (insert_reviews rows (s_pending ss)), s_pending := []\<rparr>"
    by (auto simp: flush_reviews_def split: option.splits)
  from insert_reviews_append [of rows "s_pending ss"] rows ss' show ?thesis
    by (auto simp: rows_of_def)
qed

lemma flush_movie_Inr:
  assumes "flush_movie ss mv = Inr res"
  shows "(\<exists>row. rows_of (s_movies (snd res)) = rows_of (s_movies ss) @ [row])
       \<and> s_movies (snd res) \<noteq> None \<and> s_pending (snd res) = []
       \<and> (\<exists>new. rows_of (s_reviews (snd res)) = rows_of (s_reviews ss) @ new
              \<and> length new = length (s_pending ss))
       \<and> (s_reviews ss \<noteq> None \<longrightarrow> s_reviews (snd res) \<noteq> None)"
proof -
  from assms obtain rows where rows: "s_movies ss = Some rows"
    by (auto simp: flush_movie_def split: option.splits)
  let ?ss1 = "ss\<lparr>s_movies := Some (rows @ [mv\<lparr>m_id := next_id (map m_id rows)\<rparr>])\<rparr>"
  from assms rows obtain ss' where fl: "flush_reviews ?ss1 = Inr ss'" and res: "snd res = ss'"
    by (auto simp: flush_movie_def Let_def bindE_eq_Inr split: if_splits)
  from flush_reviews_Inr [OF fl] rows res show ?thesis by (auto simp: rows_of_def)
qed

lemma import_movie_Inr:
  assumes "import_movie env m ss = Inr ss'"
  shows "(\<exists>row. rows_of (s_movies ss') = rows_of (s_movies ss) @ [row])
       \<and> s_movies ss' \<noteq> None \<and> length (s_pending ss') = 2
       \<and> (\<exists>new. rows_of (s_reviews ss') = rows_of (s_reviews ss) @ new
              \<and> length new = length (s_pending ss))
       \<and> (s_reviews ss \<noteq> None \<longrightarrow> s_reviews ss' \<noteq> None)"
proof -
  from assms obtain mv res pr nr where fl: "flush_movie ss mv = Inr res"
    and ss': "ss' = (snd res)\<lparr>s_pending := s_pending (snd res) @ [pr, nr]\<rparr>"
    unfolding import_movie_def bindE_eq_Inr Let_def by blast
  from flush_movie_Inr [OF fl] ss' show ?thesis by simp
qed

lemma import_movies_Inr:
  assumes "import_movies env ms ss = Inr ss'"
  shows "\<exists>nm nr. rows_of (s_movies ss') = rows_of (s_movies ss) @ nm \<and> length nm = length ms
       \<and> rows_of (s_reviews ss') = rows_of (s_reviews ss) @ nr
       \<and> length nr + length (s_pending ss') = length (s_pending ss) + 2 * length ms
       \<and> (s_movies ss \<noteq> None \<longrightarrow> s_movies ss' \<noteq> None)
       \<and> (s_reviews ss \<noteq> None \<longrightarrow> s_reviews ss' \<noteq> None)"
  using assms
proof (induction ms arbitrary: ss)
  case Nil
  then show ?case by simp
next
  case (Cons m ms)
  from Cons.prems obtain ss1 where 1: "import_movie env m ss = Inr ss1"
    and 2: "import_movies env ms ss1 = Inr ss'" by (auto simp: bindE_eq_Inr)
  from import_movie_Inr [OF 1] obtain row new where
    a: "rows_of (s_movies ss1) = rows_of (s_movies ss) @ [row]" "s_movies ss1 \<noteq> None"
       "length (s_pending ss1) = 2" "rows_of (s_reviews ss1) = rows_of (s_reviews ss) @ new"
       "length new = length (s_pending ss)" "s_reviews ss \<noteq> None \<longrightarrow> s_reviews ss1 \<noteq> None"
    by blast
  from Cons.IH [OF 2] obtain nm nr where
    b: "rows_of (s_movies ss') = rows_of (s_movies ss1) @ nm" "length nm = length ms"
       "rows_of (s_reviews ss') = rows_of (s_reviews ss1) @ nr"
       "length nr + length (s_pending ss') = length (s_pending ss1) + 2 * length ms"
       "s_movies ss1 \<noteq> None \<longrightarrow> s_movies ss' \<noteq> None"
       "s_reviews ss1 \<noteq> None \<longrightarrow> s_reviews ss' \<noteq> None"
    by blast
  have "rows_of (s_movies ss') = rows_of (s_movies ss) @ (row # nm)" using a b by simp
  moreover have "length (row # nm) = length (m # ms)" using b by simp
  moreover have "rows_of (s_reviews ss') = rows_of (s_reviews ss) @ (new @ nr)" using a b by simp
  moreover have "length (new @ nr) + length (s_pending ss')
                   = length (s_pending ss) + 2 * length (m # ms)" using a b by simp
  moreover have "s_movies ss \<noteq> None \<longrightarrow> s_movies ss' \<noteq> None" using a b by simp
  moreover have "s_reviews ss \<noteq> None \<longrightarrow> s_reviews ss' \<noteq> None" using a b by simp
  ultimately show ?case by blast
qed

lemma load_Inr:
  assumes run: "load_and_process_data env (Some data) st = (st', Inr ())"
    and ms: "py_iter data = Inr ms"
  shows "\<exists>nm nr. rows_of (movies_tbl st') = rows_of (movies_tbl st) @ nm \<and> length nm = length ms
       \<and> rows_of (reviews_tbl st') = rows_of (reviews_tbl st) @ nr \<and> length nr = 2 * length ms
       \<and> (movies_tbl st \<noteq> None \<longrightarrow> movies_tbl st' \<noteq> None)
       \<and> (reviews_tbl st \<noteq> None \<longrightarrow> reviews_tbl st' \<noteq> None)"
proof -
  let ?db = "\<lparr>s_movies = movies_tbl st, s_reviews = reviews_tbl st, s_pending = []\<rparr>"
  from run ms obtain db' where chain: "bindE (import_movies env ms ?db) flush_reviews = Inr db'"
    and m': "movies_tbl st' = s_movies db'" and r': "reviews_tbl st' = s_reviews db'"
    by (auto simp: load_and_process_data_def Let_def split: sum.splits)
  from chain obtain db1 where 1: "import_movies env ms ?db = Inr db1"
    and 2: "flush_reviews db1 = Inr db'" by (auto simp: bindE_eq_Inr)
  from import_movies_Inr [OF 1] obtain nm nr where
    a: "rows_of (s_movies db1) = rows_of (movies_tbl st) @ nm" "length nm = length ms"
       "rows_of (s_reviews db1) = rows_of (reviews_tbl st) @ nr"
       "length nr + length (s_pending db1) = 2 * length ms"
       "movies_tbl st \<noteq> None \<longrightarrow> s_movies db1 \<noteq> None"
       "reviews_tbl st \<noteq> None \<longrightarrow> s_reviews db1 \<noteq> None"
    by auto
  from flush_reviews_Inr [OF 2] obtain new where
    b: "s_movies db' = s_movies db1" "rows_of (s_reviews db') = rows_of (s_reviews db1) @ new"
       "length new = length (s_pending db1)" "s_reviews db1 \<noteq> None \<longrightarrow> s_reviews db' \<noteq> None"
    by blast
  have "rows_of (movies_tbl st') = rows_of (movies_tbl st) @ nm" using a b m' by simp
  moreover have "rows_of (reviews_tbl st') = rows_of (reviews_tbl st) @ (nr @ new)"
    using a b r' by simp
  moreover have "length (nr @ new) = 2 * length ms" using a b by simp
  moreover have "movies_tbl st \<noteq> None \<longrightarrow> movies_tbl st' \<noteq> None" using a b m' by simp
  moreover have "reviews_tbl st \<noteq> None \<longrightarrow> reviews_tbl st' \<noteq> None" using a b r' by simp
  ultimately show ?thesis using a(2) by blast
qed

lemma create_tables_rows:
  "rows_of (movies_tbl (create_tables st)) = rows_of (movies_tbl st)
   \<and> rows_of (reviews_tbl (create_tables st)) = rows_of (reviews_tbl st)
   \<and> (movies_tbl st = None \<longrightarrow>
        movies_tbl (create_tables st) \<noteq> None \<and> reviews_tbl (create_tables st) \<noteq> None)"
  by (simp add: create_tables_def create_all_def rows_of_def)

section \<open>The aggregator's ratios and groups\<close>

text \<open>
  C9. \<open>get_top_words\<close> of an empty sequence returns the empty string for every
  \<open>top_n \<ge> 1\<close>, and a movie whose review list is empty is aggregated without an
  error: both sentiment classes get ratio 0 and an empty summary.
\<close>

theorem empty_review_list:
  assumes n: "1 \<le> top_n"
    and empty: "getitem movie_data key_reviews = Inr (JArr [])"
  shows "get_top_words env [] top_n = Inr []
       \<and> process_movie_data env movie_data =
           Inr \<lparr>positive_summary = [], negative_summary = [],
                positive_ratio = 0, negative_ratio = 0\<rparr>"
  using empty
  by (simp add: get_top_words_def top_words_def most_common_def Counter_def
      process_movie_data_def reviews_of_def)


theorem empty_review_list_witness:
  "(1::int) \<le> 3 \<and> getitem (movie ''A'' []) key_reviews = Inr (JArr [])
   \<and> get_top_words sample_env [] 3 = Inr []
   \<and> process_movie_data sample_env (movie ''A'' []) =
       Inr \<lparr>positive_summary = [], negative_summary = [],
            positive_ratio = 0, negative_ratio = 0\<rparr>"
proof -
  have h1: "(1::int) \<le> 3" by simp
  have h2: "getitem (movie ''A'' []) key_reviews = Inr (JArr [])" by code_simp
  from empty_review_list [OF h1 h2, of sample_env] h1 h2 show ?thesis by blast
qed




text \<open>
  C2, as the code has it. The result always consists of exactly the positive and the
  negative summary, each present also when no review carries its label (empty summary,
  ratio 0). A review with any other label raises nothing and is dropped: the result is the
  one obtained without it.
\<close>

theorem only_two_groups:
  assumes rs: "getitem movie_data key_reviews = Inr (JArr rs)"
    and lab: "\<forall>r\<in>set rs. \<exists>v. getitem r key_sentiment = Inr v"
  shows "process_movie_data env movie_data =
           process_movie_data env (JObj [(key_reviews, JArr (filter labelled rs))])
       \<and> (\<forall>r. process_movie_data env movie_data = Inr r \<longrightarrow>
            (reviews_of label_positive movie_data = Inr [] \<longrightarrow>
               positive_summary r = [] \<and> (float_rounding env \<longrightarrow> positive_ratio r = 0))
          \<and> (reviews_of label_negative movie_data = Inr [] \<longrightarrow>
               negative_summary r = [] \<and> (float_rounding env \<longrightarrow> negative_ratio r = 0)))"
proof -
  have sel: "reviews_of label (JObj [(key_reviews, JArr (filter labelled rs))])
             = reviews_of label movie_data"
    if "label = label_positive \<or> label = label_negative" for label
    using rs select_reviews_filter [OF lab that] by (simp add: reviews_of_def)
  have first: "process_movie_data env movie_data =
           process_movie_data env (JObj [(key_reviews, JArr (filter labelled rs))])"
    unfolding process_movie_data_def by (simp only: sel [of label_positive, simplified] sel [of label_negative, simplified])
  have empty: "get_top_words env [] 10 = Inr []"
    by (simp add: get_top_words_def top_words_def most_common_def Counter_def)
  have second: "(reviews_of label_positive movie_data = Inr [] \<longrightarrow>
               positive_summary r = [] \<and> (float_rounding env \<longrightarrow> positive_ratio r = 0))
          \<and> (reviews_of label_negative movie_data = Inr [] \<longrightarrow>
               negative_summary r = [] \<and> (float_rounding env \<longrightarrow> negative_ratio r = 0))"
    if run: "process_movie_data env movie_data = Inr r" for r
  proof -
    from process_movie_data_InrD [OF run] obtain pos neg where
      p: "reviews_of label_positive movie_data = Inr pos"
      and n: "reviews_of label_negative movie_data = Inr neg"
      and ps: "get_top_words env pos 10 = Inr (positive_summary r)"
      and ns: "get_top_words env neg 10 = Inr (negative_summary r)"
      and pr: "positive_ratio r =
            (if int (length pos) + int (length neg) > 0
             then truediv env (int (length pos)) (int (length pos) + int (length neg)) else 0)"
      and nr: "negative_ratio r =
            (if int (length pos) + int (length neg) > 0
             then truediv env (int (length neg)) (int (length pos) + int (length neg)) else 0)"
      by blast
    have "positive_summary r = [] \<and> (float_rounding env \<longrightarrow> positive_ratio r = 0)"
      if "reviews_of label_positive movie_data = Inr []"
    proof -
      from that p have "pos = []" by simp
      with ps pr empty show ?thesis by (simp add: truediv_def float_rounding_zero)
    qed
    moreover have "negative_summary r = [] \<and> (float_rounding env \<longrightarrow> negative_ratio r = 0)"
      if "reviews_of label_negative movie_data = Inr []"
    proof -
      from that n have "neg = []" by simp
      with ns nr empty show ?thesis by (simp add: truediv_def float_rounding_zero)
    qed
    ultimately show ?thesis by blast
  qed
  from first second show ?thesis by blast
qed


theorem only_two_groups_witness:
  "getitem (movie ''A'' [review label_positive ''good'', review (ustr ''neutral'') ''fine''])
      key_reviews =
     Inr (JArr [review label_positive ''good'', review (ustr ''neutral'') ''fine''])
   \<and> process_movie_data sample_env
        (movie ''A'' [review label_positive ''good'', review (ustr ''neutral'') ''fine'']) =
       process_movie_data sample_env
        (JObj [(key_reviews, JArr (filter labelled
           [review label_positive ''good'', review (ustr ''neutral'') ''fine'']))])
   \<and> process_movie_data sample_env
        (movie ''A'' [review label_positive ''good'', review (ustr ''neutral'') ''fine'']) =
       Inr \<lparr>positive_summary = ustr ''good'', negative_summary = [],
            positive_ratio = 1, negative_ratio = 0\<rparr>
   \<and> reviews_of label_negative
        (movie ''A'' [review label_positive ''good'', review (ustr ''neutral'') ''fine'']) = Inr []
   \<and> float_rounding sample_env
   \<and> negative_summary \<lparr>positive_summary = ustr ''good'', negative_summary = [],
            positive_ratio = 1, negative_ratio = 0 :: real\<rparr> = []
   \<and> negative_ratio \<lparr>positive_summary = ustr ''good'', negative_summary = [],
            positive_ratio = 1, negative_ratio = 0 :: real\<rparr> = 0"
proof -
  let ?rs = "[review label_positive ''good'', review (ustr ''neutral'') ''fine'']"
  let ?r = "\<lparr>positive_summary = ustr ''good'', negative_summary = [],
            positive_ratio = 1, negative_ratio = 0 :: real\<rparr>"
  have h1: "getitem (movie ''A'' ?rs) key_reviews = Inr (JArr ?rs)" by code_simp
  have h2: "\<forall>r\<in>set ?rs. \<exists>v. getitem r key_sentiment = Inr v"
    by (simp add: review_def key_defs)
  have h3: "process_movie_data sample_env (movie ''A'' ?rs) = Inr ?r" by code_simp
  have h4: "reviews_of label_negative (movie ''A'' ?rs) = Inr []" by code_simp
  have h5: "float_rounding sample_env" by (simp add: float_rounding_def sample_env_def)
  from only_two_groups [OF h1 h2, of sample_env] h3 h4 h5
  have "process_movie_data sample_env (movie ''A'' ?rs) =
          process_movie_data sample_env (JObj [(key_reviews, JArr (filter labelled ?rs))])"
    and "negative_summary ?r = [] \<and> negative_ratio ?r = 0" by blast+
  with h1 h3 h4 h5 show ?thesis by blast
qed

text \<open>
  C2, as the spec states it, fails: the review labelled \<open>neutral\<close> forms no group; the
  result is the one of the list without it, with the positive and the negative entry only.
\<close>

theorem other_label_counterexample:
  "process_movie_data sample_env
     (movie ''A'' [review label_positive ''good'', review (ustr ''neutral'') ''fine'']) =
     Inr \<lparr>positive_summary = ustr ''good'', negative_summary = [],
          positive_ratio = 1, negative_ratio = 0\<rparr>
   \<and> process_movie_data sample_env (movie ''A'' [review label_positive ''good'']) =
     Inr \<lparr>positive_summary = ustr ''good'', negative_summary = [],
          positive_ratio = 1, negative_ratio = 0\<rparr>"
  by code_simp




section \<open>The ranking of the summary\<close>

text \<open>
  C3. Whenever \<open>get_top_words\<close> returns, its result joins the \<open>n\<close> first words of
  the ranking of the concatenated filtered token stream \<open>ws\<close>: the words are distinct
  tokens of \<open>ws\<close>, a more frequent word comes before a less frequent one, equally
  frequent words come in the order of their first occurrence in \<open>ws\<close>, and every token
  left out ranks after every word returned.
\<close>

theorem summary_ranking:
  assumes "get_top_words env reviews n = Inr s"
  shows "\<exists>ws. all_words env reviews = Inr ws
       \<and> s = join (ustr '', '') (top_words n ws)
       \<and> sorted_wrt (ranks_before ws) (top_words n ws)
       \<and> distinct (top_words n ws)
       \<and> set (top_words n ws) \<subseteq> set ws
       \<and> (\<forall>a\<in>set (top_words n ws). \<forall>b\<in>set ws - set (top_words n ws). ranks_before ws a b)
       \<and> length (top_words n ws) = min (nat n) (card (set ws))"
proof -
  from assms obtain ws where ws: "all_words env reviews = Inr ws"
    and s: "s = join (ustr '', '') (top_words n ws)"
    unfolding get_top_words_def bindE_eq_Inr by auto
  with top_words_props [of ws n] show ?thesis by blast
qed

theorem summary_ranking_witness:
  "get_top_words sample_env
     [review label_positive ''b a, b! 9 c'', review label_positive ''c a c''] 2 =
     Inr (ustr ''c, b'')
   \<and> all_words sample_env
       [review label_positive ''b a, b! 9 c'', review label_positive ''c a c''] =
     Inr [ustr ''b'', ustr ''a'', ustr ''b'', ustr ''c'', ustr ''c'', ustr ''a'', ustr ''c'']
   \<and> top_words 2 [ustr ''b'', ustr ''a'', ustr ''b'', ustr ''c'', ustr ''c'', ustr ''a'', ustr ''c'']
      = [ustr ''c'', ustr ''b'']
   \<and> sorted_wrt
        (ranks_before [ustr ''b'', ustr ''a'', ustr ''b'', ustr ''c'', ustr ''c'', ustr ''a'', ustr ''c''])
        [ustr ''c'', ustr ''b'']
   \<and> ranks_before [ustr ''b'', ustr ''a'', ustr ''b'', ustr ''c'', ustr ''c'', ustr ''a'', ustr ''c'']
        (ustr ''b'') (ustr ''a'')"
proof -
  let ?rs = "[review label_positive ''b a, b! 9 c'', review label_positive ''c a c'']"
  let ?ws = "[ustr ''b'', ustr ''a'', ustr ''b'', ustr ''c'', ustr ''c'', ustr ''a'', ustr ''c'']"
  have h1: "get_top_words sample_env ?rs 2 = Inr (ustr ''c, b'')" by code_simp
  have h2: "all_words sample_env ?rs = Inr ?ws" by code_simp
  have h3: "top_words 2 ?ws = [ustr ''c'', ustr ''b'']" by code_simp
  have h4: "ustr ''b'' \<in> set (top_words 2 ?ws)" unfolding h3 by simp
  have h5: "ustr ''a'' \<in> set ?ws - set (top_words 2 ?ws)" unfolding h3 by (simp add: ustr_def)
  from summary_ranking [OF h1] h2 have "sorted_wrt (ranks_before ?ws) (top_words 2 ?ws)"
    and "\<forall>a\<in>set (top_words 2 ?ws). \<forall>b\<in>set ?ws - set (top_words 2 ?ws).
           ranks_before ?ws a b" by auto
  with h4 h5 have "sorted_wrt (ranks_before ?ws) (top_words 2 ?ws)"
    and "ranks_before ?ws (ustr ''b'') (ustr ''a'')" by blast+
  with h1 h2 h3 show ?thesis by simp
qed

section \<open>Faulty reviews during the import\<close>




text \<open>
  C7, as the code has it. Nothing catches a failure of the morphological analyser: when
  it raises on the text of a review labelled positive or negative, the whole run of
  \<open>load_and_process_data\<close> fails, nothing is committed, and nothing is printed.
\<close>

theorem analysis_failure_aborts_import:
  assumes "py_iter data = Inr movies" and "m \<in> set movies"
    and "getitem m key_reviews = Inr rv" and "py_iter rv = Inr rs"
    and "r \<in> set rs" and "labelled r"
    and "getitem r key_text = Inr (JStr t)" and "okt_pos env (re_sub env t) = None"
  shows "\<exists>e. load_and_process_data env (Some data) st =
           (st\<lparr>open_sessions := open_sessions st + 1\<rparr>, Inl e)"
proof -
  from assms(7,8) have "bindE (getitem r key_text) (preprocess_text env) = Inl AnalysisError"
    by (simp add: preprocess_text_def)
  from faulty_review_aborts [OF assms(1-6) this] show ?thesis .
qed

theorem analysis_failure_aborts_import_witness:
  "load_and_process_data sample_env (Some garbled_data) populated_store =
     (populated_store\<lparr>open_sessions := open_sessions populated_store + 1\<rparr>,
      Inl AnalysisError)"
proof -
  let ?r = "review label_negative ''Zap''"
  let ?rs = "[review label_positive ''nice'', ?r]"
  let ?m = "movie ''B'' ?rs"
  have h1: "py_iter garbled_data = Inr [movie ''A'' [review label_positive ''good''], ?m]"
    by (simp add: garbled_data_def)
  have h2: "?m \<in> set [movie ''A'' [review label_positive ''good''], ?m]" by simp
  have h3: "getitem ?m key_reviews = Inr (JArr ?rs)" by code_simp
  have h4: "py_iter (JArr ?rs) = Inr ?rs" by simp
  have h5: "?r \<in> set ?rs" by simp
  have h6: "labelled ?r" by (simp add: labelled_def review_def key_defs)
  have h7: "getitem ?r key_text = Inr (JStr (ustr ''Zap''))" by (simp add: review_def key_defs)
  have h8: "okt_pos sample_env (re_sub sample_env (ustr ''Zap'')) = None" by code_simp
  have run: "snd (load_and_process_data sample_env (Some garbled_data) populated_store)
               = Inl AnalysisError" by code_simp
  from analysis_failure_aborts_import [OF h1 h2 h3 h4 h5 h6 h7 h8, of populated_store]
  obtain e where "load_and_process_data sample_env (Some garbled_data) populated_store =
           (populated_store\<lparr>open_sessions := open_sessions populated_store + 1\<rparr>, Inl e)" ..
  with run show ?thesis by simp
qed

text \<open>
  C7, as the spec states it, fails: the analyser rejects one review of the second movie,
  and the start-up ends with that exception, the tables empty (the first movie is not
  imported either) and no warning in the output.
\<close>

theorem analysis_failure_counterexample:
  "main_block sample_env (Some garbled_data) empty_store =
     (\<lparr>movies_tbl = Some [], reviews_tbl = Some [], open_sessions = 1,
       stdout = [''Tables created.'']\<rparr>, Inl AnalysisError)"
  by code_simp

section \<open>Start-up\<close>

text \<open>
  C6, as the code has it. At start-up the tables are created when the movies table does
  not exist; rows already stored are kept. The import then runs in either case: when it
  succeeds, the movies table has gained one row and the summaries table two rows for every
  movie of the data file, also in a store that was populated before.
\<close>

theorem startup_imports_again:
  assumes run: "main_block env (Some data) st = (st', Inr ())"
    and ms: "py_iter data = Inr ms"
  shows "\<exists>new_movies new_reviews.
           rows_of (movies_tbl st') = rows_of (movies_tbl st) @ new_movies
         \<and> length new_movies = length ms
         \<and> rows_of (reviews_tbl st') = rows_of (reviews_tbl st) @ new_reviews
         \<and> length new_reviews = 2 * length ms
         \<and> (movies_tbl st = None \<longrightarrow> movies_tbl st' \<noteq> None \<and> reviews_tbl st' \<noteq> None)"
proof -
  from run have "load_and_process_data env (Some data) (create_tables st) = (st', Inr ())"
    by (simp add: main_block_def)
  from load_Inr [OF this ms] create_tables_rows [of st] show ?thesis by metis
qed

theorem startup_imports_again_witness:
  "snd (main_block sample_env (Some sample_data) populated_store) = Inr ()
   \<and> length (rows_of (movies_tbl populated_store)) = 1
   \<and> length (rows_of (reviews_tbl populated_store)) = 2
   \<and> length (rows_of (movies_tbl (fst (main_block sample_env (Some sample_data) populated_store)))) = 2
   \<and> length (rows_of (reviews_tbl (fst (main_block sample_env (Some sample_data) populated_store)))) = 4"
proof -
  let ?run = "main_block sample_env (Some sample_data) populated_store"
  have ok: "snd ?run = Inr ()" by code_simp
  then have h1: "?run = (fst ?run, Inr ())" by (metis prod.collapse)
  have h2: "py_iter sample_data =
      Inr [movie ''A'' [review label_positive ''good fun good'', review label_negative ''bad'']]"
    by (simp add: sample_data_def)
  have m: "length (rows_of (movies_tbl populated_store)) = 1"
    and r: "length (rows_of (reviews_tbl populated_store)) = 2"
    by (simp_all add: populated_store_def rows_of_def)
  from startup_imports_again [OF h1 h2] obtain new_movies new_reviews where
    "rows_of (movies_tbl (fst ?run)) = rows_of (movies_tbl populated_store) @ new_movies"
    "length new_movies = 1"
    "rows_of (reviews_tbl (fst ?run)) = rows_of (reviews_tbl populated_store) @ new_reviews"
    "length new_reviews = 2"
    by auto
  with m r have "length (rows_of (movies_tbl (fst ?run))) = 2"
    "length (rows_of (reviews_tbl (fst ?run))) = 4" by simp_all
  with ok m r show ?thesis by simp
qed

text \<open>
  C6, as the spec states it, fails: a second start-up on the store the first one filled
  imports the data file again and adds a movie row and two summary rows.
\<close>

theorem restart_reimports_counterexample:
  "main_block sample_env (Some sample_data) empty_store = (populated_store, Inr ())
   \<and> snd (main_block sample_env (Some sample_data) populated_store) = Inr ()
   \<and> map m_id (rows_of (movies_tbl populated_store)) = [1]
   \<and> map m_id (rows_of (movies_tbl
        (fst (main_block sample_env (Some sample_data) populated_store)))) = [1, 2]
   \<and> map r_movie_id (rows_of (reviews_tbl
        (fst (main_block sample_env (Some sample_data) populated_store)))) = [1, 1, 2, 2]"
  by code_simp

section \<open>The handler \<open>get_movie\<close>\<close>




text \<open>
  C8, as the code has it. \<open>get_movie\<close> closes its session when it returns a
  result; when a query raises, the exception leaves the handler with the session open.
\<close>

theorem get_movie_session:
  assumes "get_movie movie_id st = (st', res)"
  shows "(\<forall>resp. res = Inr resp \<longrightarrow> open_sessions st' = open_sessions st)
       \<and> (res = Inl DBError \<longrightarrow> open_sessions st' = open_sessions st + 1)"
  using assms
  by (auto simp: get_movie_def Let_def split: option.splits)

theorem get_movie_session_witness:
  "open_sessions (fst (get_movie 1 populated_store)) = open_sessions populated_store
   \<and> open_sessions (fst (get_movie 1 empty_store)) = open_sessions empty_store + 1"
proof -
  have "\<not> isl (snd (get_movie 1 populated_store))" by code_simp
  then obtain resp where r1: "snd (get_movie 1 populated_store) = Inr resp"
    by (cases "snd (get_movie 1 populated_store)") auto
  then have h1: "get_movie 1 populated_store = (fst (get_movie 1 populated_store), Inr resp)"
    by (metis prod.collapse)
  have "snd (get_movie 1 empty_store) = Inl DBError" by code_simp
  then have h2: "get_movie 1 empty_store = (fst (get_movie 1 empty_store), Inl DBError)"
    by (metis prod.collapse)
  from get_movie_session [OF h1] get_movie_session [OF h2] show ?thesis by blast
qed

text \<open>
  C8, as the spec states it, fails: on a store without tables the query raises and the
  session opened by the handler is still open afterwards.
\<close>

theorem session_left_open_counterexample:
  "get_movie 1 empty_store =
     (\<lparr>movies_tbl = None, reviews_tbl = None, open_sessions = 1, stdout = []\<rparr>, Inl DBError)"
  by code_simp


text \<open>
  The not-found path leaves the session open as well: the exception is raised before
  \<open>db.close()\<close> is reached.
\<close>

lemma get_movie_not_found_session:
  assumes "movies_tbl st = Some movies" and "find (\<lambda>m. m_id m = movie_id) movies = None"
  shows "get_movie movie_id st =
           (st\<lparr>open_sessions := open_sessions st + 1\<rparr>,
            Inl (HTTPException 404 ''Movie not found''))"
  using assms by (simp add: get_movie_def Let_def)

end
